theory Spec2Isabelle
  imports Main "HOL-Library.Sublist"
begin

section \<open>Python strings\<close>

text \<open>
  A Python string is a sequence of Unicode code points, here a list of integers,
  as \<open>ord\<close> gives them. \<open>U\<close> turns a literal into such a list and \<open>cp\<close> a character into its code
  point. The three characters that the expression text quotes with are named.

  \<open>str.lower\<close> follows the case tables of the Unicode database. They are no part
  of the repository, so every function that lower-cases takes the lower-casing as
  its first argument \<open>lower\<close>. \<open>lower_ascii\<close> is \<open>str.lower\<close> on strings of ASCII
  characters, for the evaluations below.
\<close>

type_synonym ustring = "int list"

abbreviation cp :: "char \<Rightarrow> int" where "cp c \<equiv> of_char c"
abbreviation U :: "string \<Rightarrow> ustring" where "U s \<equiv> map of_char s"
abbreviation squote :: int where "squote \<equiv> 0x27"
abbreviation dquote :: int where "dquote \<equiv> 0x22"
abbreviation bslash :: int where "bslash \<equiv> 0x5C"

definition isspace :: "int \<Rightarrow> bool" where
  \<comment> \<open>\<open>str.isspace\<close> of one code point: the white space of the Unicode database\<close>
  "isspace c =
     (c \<in> set [0x9, 0xA, 0xB, 0xC, 0xD, 0x1C, 0x1D, 0x1E, 0x1F, 0x20, 0x85, 0xA0, 0x1680,
               0x2000, 0x2001, 0x2002, 0x2003, 0x2004, 0x2005, 0x2006, 0x2007, 0x2008,
               0x2009, 0x200A, 0x2028, 0x2029, 0x202F, 0x205F, 0x3000])"

definition strip :: "ustring \<Rightarrow> ustring" where
  \<comment> \<open>\<open>s.strip()\<close>\<close>
  "strip s = rev (dropWhile isspace (rev (dropWhile isspace s)))"

definition lower_ascii :: "ustring \<Rightarrow> ustring" where
  \<comment> \<open>\<open>s.lower()\<close> for a string of ASCII characters\<close>
  "lower_ascii s = map (\<lambda>c. if 0x41 \<le> c \<and> c \<le> 0x5A then c + 0x20 else c) s"

definition lstrip_char :: "int \<Rightarrow> ustring \<Rightarrow> ustring" where
  \<comment> \<open>\<open>s.lstrip(c)\<close> for a one-character argument\<close>
  "lstrip_char c s = dropWhile (\<lambda>x. x = c) s"

definition replace_char :: "ustring \<Rightarrow> int \<Rightarrow> ustring \<Rightarrow> ustring" where
  \<comment> \<open>\<open>s.replace(old, new)\<close> for a one-character \<open>old\<close>\<close>
  "replace_char s old new = concat (map (\<lambda>c. if c = old then new else [c]) s)"

fun join :: "ustring \<Rightarrow> ustring list \<Rightarrow> ustring" where
  \<comment> \<open>\<open>sep.join(parts)\<close>\<close>
  "join sep [] = []"
| "join sep [x] = x"
| "join sep (x # y # ys) = x @ sep @ join sep (y # ys)"

fun split_char :: "int \<Rightarrow> ustring \<Rightarrow> ustring list" where
  \<comment> \<open>\<open>s.split(c)\<close> for a one-character separator\<close>
  "split_char c [] = [[]]"
| "split_char c (x # xs) =
     (if x = c then [] # split_char c xs
      else (case split_char c xs of [] \<Rightarrow> [[x]] | y # ys \<Rightarrow> (x # y) # ys))"

fun contains :: "ustring \<Rightarrow> ustring \<Rightarrow> bool" where
  \<comment> \<open>\<open>t in name\<close>\<close>
  "contains t [] = (t = [])"
| "contains t (c # cs) = (prefix t (c # cs) \<or> contains t cs)"

definition truthy :: "ustring option \<Rightarrow> bool" where
  \<comment> \<open>the truth value of a \<open>str\<close> or \<open>None\<close>\<close>
  "truthy a = (case a of None \<Rightarrow> False | Some s \<Rightarrow> s \<noteq> [])"

definition py_or :: "ustring option \<Rightarrow> ustring option \<Rightarrow> ustring option" where
  \<comment> \<open>\<open>a or b\<close>\<close>
  "py_or a b = (if truthy a then a else b)"

section \<open>Regular expressions and \<open>re.fullmatch\<close>\<close>

datatype regex =
    Nothing
  | Eps
  | Class "int \<Rightarrow> bool"
  | Alt regex regex
  | Seq regex regex
  | Star regex

definition Opt :: "regex \<Rightarrow> regex" where
  \<comment> \<open>\<open>r?\<close>\<close>
  "Opt r = Alt r Eps"

definition Plus :: "regex \<Rightarrow> regex" where
  \<comment> \<open>\<open>r+\<close>\<close>
  "Plus r = Seq r (Star r)"

fun nullable :: "regex \<Rightarrow> bool" where
  "nullable Nothing = False"
| "nullable Eps = True"
| "nullable (Class P) = False"
| "nullable (Alt r s) = (nullable r \<or> nullable s)"
| "nullable (Seq r s) = (nullable r \<and> nullable s)"
| "nullable (Star r) = True"

fun deriv :: "int \<Rightarrow> regex \<Rightarrow> regex" where
  "deriv c Nothing = Nothing"
| "deriv c Eps = Nothing"
| "deriv c (Class P) = (if P c then Eps else Nothing)"
| "deriv c (Alt r s) = Alt (deriv c r) (deriv c s)"
| "deriv c (Seq r s) =
     (if nullable r then Alt (Seq (deriv c r) s) (deriv c s) else Seq (deriv c r) s)"
| "deriv c (Star r) = Seq (deriv c r) (Star r)"

fun fullmatch :: "regex \<Rightarrow> ustring \<Rightarrow> bool" where
  \<comment> \<open>\<open>re.fullmatch(r, s) is not None\<close>\<close>
  "fullmatch r [] = nullable r"
| "fullmatch r (c # cs) = fullmatch (deriv c r) cs"

text \<open>The words matched by a regular expression, to state what \<open>fullmatch\<close> decides.\<close>

inductive_set star :: "ustring set \<Rightarrow> ustring set" for A :: "ustring set" where
  star_nil: "[] \<in> star A"
| star_step: "u \<in> A \<Longrightarrow> v \<in> star A \<Longrightarrow> u @ v \<in> star A"

fun lang :: "regex \<Rightarrow> ustring set" where
  "lang Nothing = {}"
| "lang Eps = {[]}"
| "lang (Class P) = {[c] | c. P c}"
| "lang (Alt r s) = lang r \<union> lang s"
| "lang (Seq r s) = {u @ v | u v. u \<in> lang r \<and> v \<in> lang s}"
| "lang (Star r) = star (lang r)"

section \<open>AddressSearchToolbar.py: module functions\<close>

definition escape_like :: "ustring \<Rightarrow> ustring" where
  \<comment> \<open>\<open>s.replace("\\", "\\\\").replace("%", "\\%").replace("_", "\\_")\<close>\<close>
  "escape_like s =
     replace_char
       (replace_char (replace_char s bslash [bslash, bslash]) (cp (CHR ''%'')) [bslash, cp (CHR ''%'')])
       (cp (CHR ''_'')) [bslash, cp (CHR ''_'')]"

definition decimal_zeros :: "int list" where
  \<comment> \<open>the digits zero of the Unicode database (version 14.0, general category Nd);
      the digits one to nine of each script follow its zero\<close>
  "decimal_zeros =
       [0x30, 0x660, 0x6F0, 0x7C0, 0x966, 0x9E6, 0xA66, 0xAE6, 0xB66, 0xBE6, 0xC66, 0xCE6,
        0xD66, 0xDE6, 0xE50, 0xED0, 0xF20, 0x1040, 0x1090, 0x17E0, 0x1810, 0x1946, 0x19D0,
        0x1A80, 0x1A90, 0x1B50, 0x1BB0, 0x1C40, 0x1C50, 0xA620, 0xA8D0, 0xA900, 0xA9D0,
        0xA9F0, 0xAA50, 0xABF0, 0xFF10, 0x104A0, 0x10D30, 0x11066, 0x110F0, 0x11136,
        0x111D0, 0x112F0, 0x11450, 0x114D0, 0x11650, 0x116C0, 0x11730, 0x118E0, 0x11950,
        0x11C50, 0x11D50, 0x11DA0, 0x16A60, 0x16AC0, 0x16B50, 0x1D7CE, 0x1D7D8, 0x1D7E2,
        0x1D7EC, 0x1D7F6, 0x1E140, 0x1E2F0, 0x1E950, 0x1FBF0]"

definition is_decimal :: "int \<Rightarrow> bool" where
  \<comment> \<open>the class \<open>\d\<close> of a \<open>str\<close> pattern: the decimal digits of the Unicode database\<close>
  "is_decimal c = list_ex (\<lambda>z. z \<le> c \<and> c < z + 10) decimal_zeros"

definition number_re :: regex where
  \<comment> \<open>\<open>[+-]?\d+(\.\d+)?\<close>\<close>
  "number_re =
     Seq (Opt (Class (\<lambda>c. c = cp (CHR ''+'') \<or> c = cp (CHR ''-''))))
       (Seq (Plus (Class is_decimal))
         (Opt (Seq (Class (\<lambda>c. c = cp (CHR ''.''))) (Plus (Class is_decimal)))))"

definition is_number :: "ustring \<Rightarrow> bool" where
  \<comment> \<open>\<open>re.fullmatch(r"[+-]?\d+(\.\d+)?", s or "") is not None\<close>; for a string \<open>s\<close>,
      \<open>s or ""\<close> is \<open>s\<close>\<close>
  "is_number s = fullmatch number_re s"

section \<open>The host's data\<close>

datatype qvariant_type = QString | QInt | QDouble | QOtherType

record field =
  field_name :: ustring
  field_type :: qvariant_type
  field_typeName :: "ustring option"

datatype layer_kind =
    VectorLayer
  | OtherLayer
  | UndeterminedLayer  \<comment> \<open>reading the layer's type raises\<close>

record layer =
  layer_id :: ustring
  layer_name :: ustring
  layer_kind :: layer_kind
  layer_fields :: "field list"

datatype comparison = GreaterThan | LessThan

text \<open>
  The warnings that end a search before any expression reaches the host, named after
  the error kinds of the specification. \<open>LayerTypeUndetermined\<close> is the warning of
  AddressSearchDialog.py when the layer's type cannot be read.
\<close>

datatype search_error =
    NoLayerSelected
  | UnsupportedLayerType
  | LayerTypeUndetermined
  | NoSearchCriteria
  | NoSearchableFields
  | NonNumericComparison comparison
  | NoUsableExpression

definition submit_expr :: "ustring option \<Rightarrow> search_error + ustring" where
  \<comment> \<open>the end of both \<open>run_search\<close>: \<open>if not expr: warn; return\<close>, and otherwise the
      expression is handed to the host's parser and query execution (\<open>Inr\<close>)\<close>
  "submit_expr expr =
     (case expr of
        None \<Rightarrow> Inl NoUsableExpression
      | Some e \<Rightarrow> if e = [] then Inl NoUsableExpression else Inr e)"

section \<open>AddressSearchDialog.py\<close>

text \<open>
  Both files define a class \<open>AddressSearchDialog\<close>. The methods of the one in
  AddressSearchDialog.py carry the prefix \<open>dlg\<close>, those of the one in
  AddressSearchToolbar.py the prefix \<open>tb\<close>.
\<close>

datatype match_label =
    Label_contains  \<comment> \<open>first item of \<open>match_combo\<close>\<close>
  | Label_exact     \<comment> \<open>second item\<close>
  | Label_prefix    \<comment> \<open>third item\<close>

datatype join_label =
    Label_and  \<comment> \<open>first item of \<open>join_combo\<close>\<close>
  | Label_or   \<comment> \<open>second item\<close>

record dlg_dialog =
  freeword_edit :: ustring
  refine_enable :: bool
  refine_edit :: ustring
  match_combo :: match_label
  join_combo :: join_label

definition dlg_escape_like :: "ustring \<Rightarrow> ustring" where
  \<comment> \<open>\<open>s.replace("'", "''")\<close>\<close>
  "dlg_escape_like s = replace_char s squote [squote, squote]"

definition dlg_contains_clause :: "ustring \<Rightarrow> ustring \<Rightarrow> ustring" where
  \<comment> \<open>\<open>lower("{name}") LIKE lower('%{text}%')\<close>\<close>
  "dlg_contains_clause text name =
     U ''lower('' @ [dquote] @ name @ [dquote] @ U '') LIKE lower('' @ [squote] @ U ''%'' @ text
       @ U ''%'' @ [squote] @ U '')''"

definition dlg_exact_clause :: "ustring \<Rightarrow> ustring \<Rightarrow> ustring" where
  \<comment> \<open>\<open>lower("{name}") = lower('{text}')\<close>\<close>
  "dlg_exact_clause text name =
     U ''lower('' @ [dquote] @ name @ [dquote] @ U '') = lower('' @ [squote] @ text
       @ [squote] @ U '')''"

definition dlg_prefix_clause :: "ustring \<Rightarrow> ustring \<Rightarrow> ustring" where
  \<comment> \<open>\<open>lower("{name}") LIKE lower('{text}%')\<close>\<close>
  "dlg_prefix_clause text name =
     U ''lower('' @ [dquote] @ name @ [dquote] @ U '') LIKE lower('' @ [squote] @ text
       @ U ''%'' @ [squote] @ U '')''"

definition dlg_build_or_contains_expr :: "ustring list \<Rightarrow> ustring \<Rightarrow> ustring option" where
  \<comment> \<open>\<open>names\<close> is the source's \<open>fields\<close>, a list of field names\<close>
  "dlg_build_or_contains_expr names text0 =
     (let text = dlg_escape_like text0
      in if text = [] then None
         else (let parts = map (dlg_contains_clause text) names
               in if parts \<noteq> [] then Some (U ''('' @ join (U '' OR '') parts @ U '')'') else None))"

definition dlg_build_refine_expr ::
  "ustring list \<Rightarrow> ustring \<Rightarrow> match_label \<Rightarrow> ustring option" where
  "dlg_build_refine_expr names text0 mode_label =
     (let text = dlg_escape_like text0
      in if text = [] then None
         else (let parts =
                 (if mode_label = Label_exact then map (dlg_exact_clause text) names
                  else if mode_label = Label_prefix then map (dlg_prefix_clause text) names
                  else map (dlg_contains_clause text) names)
               in if parts \<noteq> [] then Some (U ''('' @ join (U '' OR '') parts @ U '')'') else None))"

definition dlg_combine_expr ::
  "ustring option \<Rightarrow> ustring option \<Rightarrow> join_label \<Rightarrow> ustring option" where
  "dlg_combine_expr a b join_label =
     (case (a, b) of
        (Some x, Some y) \<Rightarrow>
          (if x \<noteq> [] \<and> y \<noteq> []
           then (let op = (if join_label = Label_and then U ''AND'' else U ''OR'')
                 in Some (U ''('' @ x @ U '' '' @ op @ U '' '' @ y @ U '')''))
           else py_or a b)
      | _ \<Rightarrow> py_or a b)"

definition dlg_str_fields :: "layer \<Rightarrow> ustring list" where
  \<comment> \<open>\<open>[f.name() for f in layer.fields() if f.type() == QVariant.String]\<close>\<close>
  "dlg_str_fields lyr =
     map field_name (filter (\<lambda>f. field_type f = QString) (layer_fields lyr))"

definition dlg_run_search :: "layer option \<Rightarrow> dlg_dialog \<Rightarrow> search_error + ustring" where
  \<comment> \<open>the first argument is \<open>iface.activeLayer()\<close>\<close>
  "dlg_run_search active d =
     (case active of
        None \<Rightarrow> Inl NoLayerSelected
      | Some lyr \<Rightarrow>
          (case layer_kind lyr of
             UndeterminedLayer \<Rightarrow> Inl LayerTypeUndetermined
           | OtherLayer \<Rightarrow> Inl UnsupportedLayerType
           | VectorLayer \<Rightarrow>
               (let freeword = strip (freeword_edit d);
                    refine_on = refine_enable d;
                    refine_text = (if refine_on then strip (refine_edit d) else [])
                in if freeword = [] \<and> \<not> (refine_on \<and> refine_text \<noteq> [])
                   then Inl NoSearchCriteria
                   else (let str_fields = dlg_str_fields lyr
                         in if str_fields = [] then Inl NoSearchableFields
                            else (let free_expr =
                                        (if freeword \<noteq> []
                                         then dlg_build_or_contains_expr str_fields freeword
                                         else None);
                                      refine_expr =
                                        (if refine_on \<and> refine_text \<noteq> []
                                         then dlg_build_refine_expr str_fields refine_text
                                                (match_combo d)
                                         else None)
                                  in submit_expr
                                       (dlg_combine_expr free_expr refine_expr
                                          (join_combo d)))))))"

section \<open>AddressSearchToolbar.py: the dialog\<close>

record tb_dialog =
  edit_free :: ustring
  advanced_visible :: bool
  toggle_adv_checked :: bool
  combo_logic :: int
  chk_use_filter :: bool
  combo_field_items :: "ustring list"
  combo_field_index :: int
  combo_op :: int
  edit_filter :: ustring
  combo_layer_names :: "ustring list"  \<comment> \<open>the items after the blank first item\<close>
  combo_layer_index :: int
  lbl_layer_info :: "ustring option"
    \<comment> \<open>\<open>None\<close>: the text for no layer; \<open>Some i\<close>: the information line of layer \<open>i\<close>\<close>
  tbl_headers :: "ustring list"
  tbl_rows :: "ustring list list"
  list_files :: "ustring list"
  edit_folder :: ustring
  edit_ext :: ustring
  last_layer_id :: "ustring option"

record saved_state =
  s_free :: ustring
  s_adv_expanded :: bool
  s_logic :: int
  s_use_filter :: bool
  s_field :: ustring
  s_op :: int
  s_filter_text :: ustring
  s_folder :: ustring
  s_ext :: ustring
  s_layer_name :: ustring

datatype notice = Info_conditions_cleared

record host =
  project_layers :: "layer list"
  active_layer :: "ustring option"
  selection :: "ustring \<Rightarrow> int list"  \<comment> \<open>the selected feature ids of each layer id\<close>
  accepts_no_active_layer :: bool
    \<comment> \<open>whether the host lets the active layer be unset; otherwise the attempt
        raises and is ignored\<close>
  settings :: "saved_state option"
  message_bar :: "notice list"

definition current_text :: "ustring list \<Rightarrow> int \<Rightarrow> ustring" where
  \<comment> \<open>\<open>combo.currentText()\<close>\<close>
  "current_text items i = (if 0 \<le> i \<and> i < int (length items) then items ! nat i else [])"

fun find_text :: "ustring list \<Rightarrow> ustring \<Rightarrow> int" where
  \<comment> \<open>\<open>combo.findText(t)\<close>\<close>
  "find_text [] t = - 1"
| "find_text (x # xs) t =
     (if x = t then 0 else (let i = find_text xs t in if i < 0 then - 1 else i + 1))"

definition combo_layer_items :: "tb_dialog \<Rightarrow> ustring list" where
  \<comment> \<open>\<open>refresh_layers\<close> fills the combo with a blank item and then the layer names\<close>
  "combo_layer_items d = [] # combo_layer_names d"

definition tb_set_advanced_collapsed :: "bool \<Rightarrow> tb_dialog \<Rightarrow> tb_dialog" where
  "tb_set_advanced_collapsed collapsed d =
     d\<lparr>advanced_visible := \<not> collapsed, toggle_adv_checked := \<not> collapsed\<rparr>"

definition tb_save_state :: "host \<Rightarrow> tb_dialog \<Rightarrow> host" where
  "tb_save_state h d =
     h\<lparr>settings := Some
         \<lparr>s_free = edit_free d,
          s_adv_expanded = toggle_adv_checked d,
          s_logic = combo_logic d,
          s_use_filter = chk_use_filter d,
          s_field = current_text (combo_field_items d) (combo_field_index d),
          s_op = combo_op d,
          s_filter_text = edit_filter d,
          s_folder = edit_folder d,
          s_ext = edit_ext d,
          s_layer_name = current_text (combo_layer_items d) (combo_layer_index d)\<rparr>\<rparr>"

definition tb_get_selected_layer :: "host \<Rightarrow> tb_dialog \<Rightarrow> layer option" where
  "tb_get_selected_layer h d =
     (let name = strip (current_text (combo_layer_items d) (combo_layer_index d))
      in if name = [] then None
         else find (\<lambda>lyr. layer_kind lyr = VectorLayer \<and> layer_name lyr = name)
                (project_layers h))"

definition tb_get_layer_by_id :: "host \<Rightarrow> ustring option \<Rightarrow> layer option" where
  "tb_get_layer_by_id h lid =
     (case lid of
        None \<Rightarrow> None
      | Some i \<Rightarrow>
          (if i = [] then None
           else (case find (\<lambda>lyr. layer_id lyr = i) (project_layers h) of
                   None \<Rightarrow> None
                 | Some lyr \<Rightarrow> if layer_kind lyr = VectorLayer then Some lyr else None)))"

definition tb_clear_qgis_active_layer :: "host \<Rightarrow> host" where
  "tb_clear_qgis_active_layer h =
     (if accepts_no_active_layer h then h\<lparr>active_layer := None\<rparr> else h)"

fun tb_on_layer_changed :: "host \<times> tb_dialog \<Rightarrow> host \<times> tb_dialog" where
  "tb_on_layer_changed (h, d) =
     (case tb_get_selected_layer h d of
           None \<Rightarrow>
             (let d1 = d\<lparr>combo_field_items := [], combo_field_index := - 1,
                         lbl_layer_info := None\<rparr>
              in (tb_save_state h d1, d1))
         | Some lyr \<Rightarrow>
             (let d1 = d\<lparr>last_layer_id := Some (layer_id lyr)\<rparr>;
                  keep = current_text (combo_field_items d1) (combo_field_index d1);
                  items = map field_name (layer_fields lyr);
                  idx = (if keep \<noteq> [] \<and> 0 \<le> find_text items keep then find_text items keep
                         else if items = [] then - 1 else 0);
                  d2 = d1\<lparr>combo_field_items := items, combo_field_index := idx,
                          lbl_layer_info := Some (layer_id lyr)\<rparr>
              in (tb_save_state h d2, d2)))"

fun tb_unselect_layer :: "host \<times> tb_dialog \<Rightarrow> host \<times> tb_dialog" where
  "tb_unselect_layer (h, d) =
     (let h1 = (case tb_get_layer_by_id h (last_layer_id d) of
                  None \<Rightarrow> h
                | Some prev \<Rightarrow> h\<lparr>selection := (selection h)(layer_id prev := [])\<rparr>);
          d1 = d\<lparr>combo_layer_index := 0\<rparr>;
          st2 = tb_on_layer_changed (h1, d1)
      in (tb_clear_qgis_active_layer (fst st2), snd st2))"

fun tb_clear_all :: "host \<times> tb_dialog \<Rightarrow> host \<times> tb_dialog" where
  \<comment> \<open>every change of a widget also saves the settings through its signal; the save
      at the end is the one that remains\<close>
  "tb_clear_all (h, d) =
     (let d1 = d\<lparr>edit_free := []\<rparr>;
          d2 = tb_set_advanced_collapsed True d1;
          d3 = d2\<lparr>combo_logic := 0, chk_use_filter := False, combo_op := 0,
                  edit_filter := []\<rparr>;
          st4 = tb_unselect_layer (h, d3);
          d5 = (snd st4)\<lparr>tbl_rows := [], tbl_headers := [], list_files := []\<rparr>;
          h5 = tb_save_state (fst st4) d5
      in (h5\<lparr>message_bar := message_bar h5 @ [Info_conditions_cleared]\<rparr>, d5))"

subsection \<open>Attribute search\<close>

definition is_string_field :: "(ustring \<Rightarrow> ustring) \<Rightarrow> field \<Rightarrow> bool" where
  \<comment> \<open>\<open>(f.typeName() or "").lower() in ("string", "text", "varchar", "char", "nchar",
      "nvarchar")\<close>\<close>
  "is_string_field lower f =
     (lower (case field_typeName f of None \<Rightarrow> [] | Some tn \<Rightarrow> tn)
        \<in> set [U ''string'', U ''text'', U ''varchar'', U ''char'', U ''nchar'', U ''nvarchar''])"

definition tb_contains_clause :: "ustring \<Rightarrow> ustring \<Rightarrow> ustring" where
  \<comment> \<open>\<open>lower("{f.name()}") LIKE lower('%{free_esc}%')\<close>\<close>
  "tb_contains_clause free_esc name =
     U ''lower('' @ [dquote] @ name @ [dquote] @ U '') LIKE lower('' @ [squote] @ U ''%'' @ free_esc
       @ U ''%'' @ [squote] @ U '')''"

definition tb_expr_free ::
  "(ustring \<Rightarrow> ustring) \<Rightarrow> field list \<Rightarrow> ustring \<Rightarrow> search_error + ustring option" where
  \<comment> \<open>lines 539 to 551 of \<open>run_search\<close>: the value of \<open>expr_free\<close>, or the warning
      that ends the search; \<open>flds\<close> is \<open>layer.fields()\<close>\<close>
  "tb_expr_free lower flds free =
     (if free \<noteq> []
      then (let free_esc = escape_like free;
                parts = map (\<lambda>f. tb_contains_clause free_esc (field_name f))
                          (filter (is_string_field lower) flds)
            in if parts \<noteq> [] then Inr (Some (U ''('' @ join (U '' OR '') parts @ U '')''))
               else Inl NoSearchableFields)
      else Inr None)"

definition tb_expr_filter :: "ustring \<Rightarrow> int \<Rightarrow> ustring \<Rightarrow> search_error + ustring" where
  \<comment> \<open>lines 556 to 575 of \<open>run_search\<close>: the value of \<open>expr_filter\<close> under
      \<open>if use_filter and filt and field\<close>, or the warning that ends the search\<close>
  "tb_expr_filter field op_idx filt =
     (let field_q = [dquote] @ field @ [dquote]
      in if op_idx = 0
         then (if is_number filt then Inr (U ''('' @ field_q @ U '' = '' @ filt @ U '')'')
               else (let safe = replace_char filt squote [squote, squote]
                     in Inr (U ''('' @ field_q @ U '' = '' @ [squote] @ safe @ [squote] @ U '')'')))
         else if op_idx = 1
         then (if \<not> is_number filt then Inl (NonNumericComparison GreaterThan)
               else Inr (U ''('' @ field_q @ U '' > '' @ filt @ U '')''))
         else if op_idx = 2
         then (if \<not> is_number filt then Inl (NonNumericComparison LessThan)
               else Inr (U ''('' @ field_q @ U '' < '' @ filt @ U '')''))
         else (let filt_esc = escape_like filt
               in Inr (U ''(lower('' @ field_q @ U '') LIKE lower('' @ [squote] @ U ''%'' @ filt_esc
                         @ U ''%'' @ [squote] @ U ''))'')))"

definition tb_final_expr ::
  "ustring option \<Rightarrow> ustring option \<Rightarrow> bool \<Rightarrow> ustring option" where
  \<comment> \<open>lines 578 to 582 of \<open>run_search\<close>: the value of \<open>final_expr\<close>\<close>
  "tb_final_expr expr_free expr_filter logic_and =
     (case (expr_free, expr_filter) of
        (Some a, Some b) \<Rightarrow>
          (if a \<noteq> [] \<and> b \<noteq> []
           then (let joiner = (if logic_and then U '' AND '' else U '' OR '')
                 in Some (U ''('' @ a @ U '')'' @ joiner @ U ''('' @ b @ U '')''))
           else py_or expr_free expr_filter)
      | _ \<Rightarrow> py_or expr_free expr_filter)"

definition tb_run_search ::
  "(ustring \<Rightarrow> ustring) \<Rightarrow> host \<Rightarrow> tb_dialog \<Rightarrow> search_error + ustring" where
  "tb_run_search lower h d =
     (case tb_get_selected_layer h d of
        None \<Rightarrow> Inl NoLayerSelected
      | Some lyr \<Rightarrow>
          (let free = strip (edit_free d);
               logic_and = (combo_logic d = 0);
               use_filter = chk_use_filter d;
               field = strip (current_text (combo_field_items d) (combo_field_index d));
               op_idx = combo_op d;
               filt = strip (edit_filter d)
           in if free = [] \<and> \<not> (use_filter \<and> filt \<noteq> []) then Inl NoSearchCriteria
              else (case tb_expr_free lower (layer_fields lyr) free of
                      Inl e \<Rightarrow> Inl e
                    | Inr expr_free \<Rightarrow>
                        (if use_filter \<and> filt \<noteq> [] \<and> field \<noteq> []
                         then (case tb_expr_filter field op_idx filt of
                                 Inl e \<Rightarrow> Inl e
                               | Inr x \<Rightarrow>
                                   submit_expr (tb_final_expr expr_free (Some x) logic_and))
                         else submit_expr (tb_final_expr expr_free None logic_and)))))"

subsection \<open>File search\<close>

record path =
  path_str :: ustring    \<comment> \<open>\<open>str(p)\<close>\<close>
  path_name :: ustring   \<comment> \<open>\<open>p.name\<close>\<close>
  path_is_file :: bool  \<comment> \<open>\<open>p.is_file()\<close>\<close>

record folder =
  folder_isdir :: bool                \<comment> \<open>\<open>os.path.isdir(base)\<close>\<close>
  folder_rglob :: "path list option"  \<comment> \<open>the paths below it; \<open>None\<close> when the walk raises\<close>

datatype file_error = NoBaseFolder | FolderNotFound | NoKeywordProvided | TraversalError

definition rfind :: "int \<Rightarrow> ustring \<Rightarrow> int" where
  \<comment> \<open>\<open>s.rfind(c)\<close>\<close>
  "rfind c s =
     (if c \<in> set s then int (length s) - 1 - int (length (takeWhile (\<lambda>x. x \<noteq> c) (rev s)))
      else - 1)"

definition path_suffix :: "ustring \<Rightarrow> ustring" where
  \<comment> \<open>\<open>p.suffix\<close>, from the file name: the part from the last dot on, when that dot is
      neither the first nor the last character\<close>
  "path_suffix name =
     (let i = rfind (cp (CHR ''.'')) name
      in if 0 < i \<and> i < int (length name) - 1 then drop (nat i) name else [])"

definition tb_parse_exts :: "(ustring \<Rightarrow> ustring) \<Rightarrow> ustring \<Rightarrow> ustring list" where
  "tb_parse_exts lower raw =
     (let parts = map (\<lambda>p. lstrip_char (cp (CHR ''.'')) (lower (strip p)))
                    (filter (\<lambda>p. strip p \<noteq> []) (split_char (cp (CHR '','')) raw))
      in foldl (\<lambda>out p. if p \<noteq> [] \<and> p \<notin> set out then out @ [p] else out) [] parts)"

definition file_ext :: "(ustring \<Rightarrow> ustring) \<Rightarrow> path \<Rightarrow> ustring" where
  \<comment> \<open>\<open>p.suffix.lower().lstrip(".")\<close>\<close>
  "file_ext lower p = lstrip_char (cp (CHR ''.'')) (lower (path_suffix (path_name p)))"

definition tb_file_hit ::
  "(ustring \<Rightarrow> ustring) \<Rightarrow> ustring list \<Rightarrow> ustring list \<Rightarrow> bool \<Rightarrow> path \<Rightarrow> bool" where
  \<comment> \<open>the body of the loop over \<open>rglob\<close>: whether \<open>p\<close> is appended to \<open>hits\<close>\<close>
  "tb_file_hit lower exts tokens logic_and p =
     (if \<not> path_is_file p then False
      else if exts \<noteq> [] \<and> file_ext lower p \<notin> set exts then False
      else (let name = path_name p
            in if length tokens = 1 then contains (hd tokens) name
               else if logic_and then list_all (\<lambda>t. contains t name) tokens
               else list_ex (\<lambda>t. contains t name) tokens))"

definition tb_tokens :: "ustring \<Rightarrow> ustring \<Rightarrow> ustring list" where
  "tb_tokens kw1 kw2 = (if kw1 \<noteq> [] then [kw1] else []) @ (if kw2 \<noteq> [] then [kw2] else [])"

fun tb_run_file_search ::
  "(ustring \<Rightarrow> ustring) \<Rightarrow> (ustring \<Rightarrow> folder) \<Rightarrow> host \<times> tb_dialog
     \<Rightarrow> (host \<times> tb_dialog) \<times> (file_error + nat)" where
  \<comment> \<open>the result is the state afterwards and either the warning or the number of hits
      that the message reports\<close>
  "tb_run_file_search lower fs (h, d) =
     (let base = strip (edit_folder d)
      in if base = [] then ((h, d), Inl NoBaseFolder)
         else if \<not> folder_isdir (fs base) then ((h, d), Inl FolderNotFound)
         else (let kw1 = strip (edit_free d);
                   kw2 = (if chk_use_filter d then strip (edit_filter d) else [])
               in if kw1 = [] \<and> kw2 = [] then ((h, d), Inl NoKeywordProvided)
                  else (let tokens = tb_tokens kw1 kw2;
                            logic_and = (combo_logic d = 0);
                            exts = tb_parse_exts lower (edit_ext d);
                            d1 = d\<lparr>list_files := []\<rparr>
                        in case folder_rglob (fs base) of
                             None \<Rightarrow> ((h, d1), Inl TraversalError)
                           | Some ps \<Rightarrow>
                               (let hits = filter (tb_file_hit lower exts tokens logic_and) ps;
                                    d2 = d1\<lparr>list_files := map path_str (take 500 hits)\<rparr>
                                in ((tb_save_state h d2, d2), Inr (length hits))))))"

section \<open>Notions of the specification\<close>

text \<open>
  The shared numeric rule in the specification's words, with the digits \<open>0\<close> to \<open>9\<close>;
  a term with every single quote doubled; a term with a backslash put before every
  backslash, \<open>%\<close> and \<open>_\<close>; and the condition of the file search on one path, where
  \<open>sublist t name\<close> says that \<open>name = pre @ t @ post\<close> for some \<open>pre\<close> and \<open>post\<close>.
\<close>

definition ascii_digit :: "int \<Rightarrow> bool" where
  "ascii_digit c = (c \<in> set (U ''0123456789''))"

definition numeric_spec :: "ustring \<Rightarrow> bool" where
  \<comment> \<open>an optional sign, one or more digits, then optionally one decimal point
      followed by one or more digits\<close>
  "numeric_spec s =
     (\<exists>sign ds frac. s = sign @ ds @ frac
        \<and> (sign = [] \<or> sign = U ''+'' \<or> sign = U ''-'')
        \<and> ds \<noteq> [] \<and> list_all ascii_digit ds
        \<and> (frac = [] \<or> (\<exists>fs. frac = cp (CHR ''.'') # fs \<and> fs \<noteq> [] \<and> list_all ascii_digit fs)))"

fun double_quotes :: "ustring \<Rightarrow> ustring" where
  "double_quotes [] = []"
| "double_quotes (c # cs) =
     (if c = squote then squote # squote # double_quotes cs else c # double_quotes cs)"

fun backslash_escaped :: "ustring \<Rightarrow> ustring" where
  "backslash_escaped [] = []"
| "backslash_escaped (c # cs) =
     (if c = bslash \<or> c = cp (CHR ''%'') \<or> c = cp (CHR ''_'')
      then bslash # c # backslash_escaped cs else c # backslash_escaped cs)"

definition file_matches ::
  "(ustring \<Rightarrow> ustring) \<Rightarrow> ustring list \<Rightarrow> ustring list \<Rightarrow> bool \<Rightarrow> path \<Rightarrow> bool" where
  "file_matches lower exts tokens and_policy p =
     (path_is_file p
      \<and> (exts = [] \<or> file_ext lower p \<in> set exts)
      \<and> (if and_policy then (\<forall>t \<in> set tokens. sublist t (path_name p))
         else (\<exists>t \<in> set tokens. sublist t (path_name p))))"

section \<open>Regular expressions: \<open>fullmatch\<close> decides the language\<close>

lemma nullable_lang: "nullable r \<longleftrightarrow> [] \<in> lang r"
  by (induction r) (auto intro: star_nil)

lemma star_cons_split:
  assumes "x \<in> star A" and "x = c # w"
  shows "\<exists>u v. w = u @ v \<and> c # u \<in> A \<and> v \<in> star A"
  using assms
proof (induction arbitrary: w rule: star.induct)
  case star_nil
  then show ?case by simp
next
  case (star_step u v)
  show ?case
  proof (cases u)
    case Nil
    with star_step show ?thesis by simp
  next
    case (Cons a u')
    with star_step.prems have "a = c" and "w = u' @ v" by simp_all
    with Cons star_step.hyps show ?thesis by blast
  qed
qed

lemma star_cons_iff:
  "c # w \<in> star A \<longleftrightarrow> (\<exists>u v. w = u @ v \<and> c # u \<in> A \<and> v \<in> star A)"
proof
  assume "c # w \<in> star A"
  then show "\<exists>u v. w = u @ v \<and> c # u \<in> A \<and> v \<in> star A"
    by (rule star_cons_split) simp
next
  assume "\<exists>u v. w = u @ v \<and> c # u \<in> A \<and> v \<in> star A"
  then obtain u v where "w = u @ v" "c # u \<in> A" "v \<in> star A" by blast
  then show "c # w \<in> star A"
    using star_step [of "c # u" A v] by simp
qed

lemma lang_SeqI: "u \<in> lang r \<Longrightarrow> v \<in> lang s \<Longrightarrow> u @ v \<in> lang (Seq r s)"
  by (simp only: lang.simps) blast

lemma lang_deriv: "w \<in> lang (deriv c r) \<longleftrightarrow> c # w \<in> lang r"
proof (induction r arbitrary: w)
  case (Seq r s)
  show ?case
  proof
    assume "w \<in> lang (deriv c (Seq r s))"
    then consider (left) u v where "w = u @ v" "u \<in> lang (deriv c r)" "v \<in> lang s"
      | (right) "nullable r" "w \<in> lang (deriv c s)"
      by (auto split: if_splits)
    then show "c # w \<in> lang (Seq r s)"
    proof cases
      case left
      then have "c # u \<in> lang r" using Seq.IH(1) by simp
      with left have "(c # u) @ v \<in> lang (Seq r s)" by (intro lang_SeqI)
      with left show ?thesis by simp
    next
      case right
      then have "[] \<in> lang r" "c # w \<in> lang s"
        using Seq.IH(2) nullable_lang by simp_all
      then have "[] @ (c # w) \<in> lang (Seq r s)" by (intro lang_SeqI)
      then show ?thesis by simp
    qed
  next
    assume "c # w \<in> lang (Seq r s)"
    then obtain u v where uv: "c # w = u @ v" "u \<in> lang r" "v \<in> lang s" by auto
    show "w \<in> lang (deriv c (Seq r s))"
    proof (cases u)
      case Nil
      with uv have "nullable r" "w \<in> lang (deriv c s)"
        using Seq.IH(2) nullable_lang by simp_all
      then show ?thesis by simp
    next
      case (Cons a u')
      with uv have "w = u' @ v" "u' \<in> lang (deriv c r)"
        using Seq.IH(1) by simp_all
      with uv show ?thesis by auto
    qed
  qed
next
  case (Star r)
  have "w \<in> lang (deriv c (Star r))
      \<longleftrightarrow> (\<exists>u v. w = u @ v \<and> u \<in> lang (deriv c r) \<and> v \<in> star (lang r))"
    by auto
  also have "\<dots> \<longleftrightarrow> (\<exists>u v. w = u @ v \<and> c # u \<in> lang r \<and> v \<in> star (lang r))"
    using Star.IH by simp
  also have "\<dots> \<longleftrightarrow> c # w \<in> lang (Star r)"
    by (simp add: star_cons_iff)
  finally show ?case .
qed auto

lemma fullmatch_lang: "fullmatch r s \<longleftrightarrow> s \<in> lang r"
  by (induction s arbitrary: r) (simp_all add: nullable_lang lang_deriv)

lemma star_Class: "w \<in> star {[c] | c. P c} \<longleftrightarrow> list_all P w"
proof
  assume "w \<in> star {[c] | c. P c}"
  then show "list_all P w"
    by (induction rule: star.induct) auto
next
  assume "list_all P w"
  then show "w \<in> star {[c] | c. P c}"
  proof (induction w)
    case Nil
    show ?case by (rule star_nil)
  next
    case (Cons a w)
    then have "[a] \<in> {[c] | c. P c}" and "w \<in> star {[c] | c. P c}" by simp_all
    then have "[a] @ w \<in> star {[c] | c. P c}" by (rule star_step)
    then show ?case by simp
  qed
qed

lemma lang_Plus_Class: "w \<in> lang (Plus (Class P)) \<longleftrightarrow> w \<noteq> [] \<and> list_all P w"
proof
  assume "w \<in> lang (Plus (Class P))"
  then show "w \<noteq> [] \<and> list_all P w"
    by (auto simp: Plus_def star_Class)
next
  assume a: "w \<noteq> [] \<and> list_all P w"
  then obtain c v where w: "w = c # v" by (cases w) auto
  with a have "[c] \<in> lang (Class P)" and "v \<in> lang (Star (Class P))"
    by (simp_all add: star_Class)
  then have "[c] @ v \<in> lang (Seq (Class P) (Star (Class P)))"
    by (rule lang_SeqI)
  with w show "w \<in> lang (Plus (Class P))"
    by (simp add: Plus_def del: lang.simps)
qed

lemma lang_Opt: "w \<in> lang (Opt r) \<longleftrightarrow> w = [] \<or> w \<in> lang r"
  by (auto simp: Opt_def)

lemma lang_number_shape:
  "s \<in> lang (Seq (Opt (Class sg)) (Seq (Plus (Class dig)) (Opt (Seq (Class pt) (Plus (Class dig))))))
     \<longleftrightarrow> (\<exists>sign ds frac. s = sign @ ds @ frac
           \<and> (sign = [] \<or> (\<exists>c. sign = [c] \<and> sg c))
           \<and> ds \<noteq> [] \<and> list_all dig ds
           \<and> (frac = [] \<or> (\<exists>c fs. frac = c # fs \<and> pt c \<and> fs \<noteq> [] \<and> list_all dig fs)))"
  (is "s \<in> lang (Seq ?S (Seq ?D ?F)) \<longleftrightarrow> ?rhs")
proof
  assume "s \<in> lang (Seq ?S (Seq ?D ?F))"
  then obtain sign ds frac where s: "s = sign @ ds @ frac"
    and sign: "sign \<in> lang ?S" and ds: "ds \<in> lang ?D" and frac: "frac \<in> lang ?F"
    unfolding lang.simps(5) by blast
  from sign have 1: "sign = [] \<or> (\<exists>c. sign = [c] \<and> sg c)"
    by (auto simp: lang_Opt)
  from ds have 2: "ds \<noteq> [] \<and> list_all dig ds"
    by (simp add: lang_Plus_Class)
  from frac have 3: "frac = [] \<or> (\<exists>c fs. frac = c # fs \<and> pt c \<and> fs \<noteq> [] \<and> list_all dig fs)"
    unfolding lang_Opt lang.simps(5) by (auto simp: lang_Plus_Class)
  from s 1 2 3 show ?rhs by blast
next
  assume ?rhs
  then obtain sign ds frac where s: "s = sign @ ds @ frac"
    and 1: "sign = [] \<or> (\<exists>c. sign = [c] \<and> sg c)"
    and 2: "ds \<noteq> []" "list_all dig ds"
    and 3: "frac = [] \<or> (\<exists>c fs. frac = c # fs \<and> pt c \<and> fs \<noteq> [] \<and> list_all dig fs)"
    by blast
  from 1 have sign: "sign \<in> lang ?S"
    by (auto simp: lang_Opt)
  from 2 have ds: "ds \<in> lang ?D"
    by (simp add: lang_Plus_Class)
  have frac: "frac \<in> lang ?F"
  proof (cases "frac = []")
    case True
    then show ?thesis by (simp add: lang_Opt)
  next
    case False
    with 3 obtain c fs where fs: "frac = c # fs" "pt c" "fs \<noteq> []" "list_all dig fs" by blast
    then have "[c] \<in> lang (Class pt)" and "fs \<in> lang (Plus (Class dig))"
      by (simp_all add: lang_Plus_Class)
    then have "[c] @ fs \<in> lang (Seq (Class pt) (Plus (Class dig)))"
      by (rule lang_SeqI)
    with fs show ?thesis by (simp only: lang_Opt append_Cons append_Nil) simp
  qed
  from ds frac have "ds @ frac \<in> lang (Seq ?D ?F)"
    by (rule lang_SeqI)
  with sign have "sign @ ds @ frac \<in> lang (Seq ?S (Seq ?D ?F))"
    by (rule lang_SeqI)
  with s show "s \<in> lang (Seq ?S (Seq ?D ?F))" by simp
qed

section \<open>The numeric rule\<close>

lemma is_number_shape:
  "is_number s \<longleftrightarrow>
     (\<exists>sign ds frac. s = sign @ ds @ frac
        \<and> (sign = [] \<or> sign = U ''+'' \<or> sign = U ''-'')
        \<and> ds \<noteq> [] \<and> list_all is_decimal ds
        \<and> (frac = [] \<or> (\<exists>fs. frac = cp (CHR ''.'') # fs \<and> fs \<noteq> [] \<and> list_all is_decimal fs)))"
proof -
  have a: "(sign = [] \<or> (\<exists>c. sign = [c] \<and> (c = cp (CHR ''+'') \<or> c = cp (CHR ''-''))))
      \<longleftrightarrow> (sign = [] \<or> sign = U ''+'' \<or> sign = U ''-'')" for sign :: ustring
    by auto
  have b: "(frac = [] \<or> (\<exists>c fs. frac = c # fs \<and> c = cp (CHR ''.'') \<and> fs \<noteq> [] \<and> list_all is_decimal fs))
      \<longleftrightarrow> (frac = [] \<or> (\<exists>fs. frac = cp (CHR ''.'') # fs \<and> fs \<noteq> [] \<and> list_all is_decimal fs))"
    for frac :: ustring
    by auto
  show ?thesis
    unfolding is_number_def fullmatch_lang number_re_def lang_number_shape a b ..
qed

lemma ascii_digit_iff: "ascii_digit c \<longleftrightarrow> 48 \<le> c \<and> c \<le> 57"
  unfolding ascii_digit_def by (simp, arith)


lemma decimal_zeros_low: "\<forall>z \<in> set decimal_zeros. z = 48 \<or> 128 \<le> z"
  by (simp add: decimal_zeros_def)

lemma ascii_digit_decimal: "ascii_digit c \<Longrightarrow> is_decimal c"
  by (simp add: ascii_digit_iff is_decimal_def decimal_zeros_def)

lemma decimal_ascii_digit:
  assumes "is_decimal c" and "c < 128"
  shows "ascii_digit c"
proof -
  from assms(1) obtain z where z: "z \<in> set decimal_zeros" "z \<le> c" "c < z + 10"
    unfolding is_decimal_def list_ex_iff by blast
  with assms(2) decimal_zeros_low have "z = 48" by fastforce
  with z show ?thesis by (simp add: ascii_digit_iff)
qed

lemma numeric_spec_ascii:
  assumes "numeric_spec s"
  shows "\<forall>c \<in> set s. c < 128"
proof -
  from assms obtain sign ds frac where s: "s = sign @ ds @ frac"
    and 1: "sign = [] \<or> sign = U ''+'' \<or> sign = U ''-''"
    and 2: "list_all ascii_digit ds"
    and 3: "frac = [] \<or> (\<exists>fs. frac = cp (CHR ''.'') # fs \<and> fs \<noteq> [] \<and> list_all ascii_digit fs)"
    unfolding numeric_spec_def by blast
  from 1 have "\<forall>c \<in> set sign. c < 128" by auto
  moreover from 2 have "\<forall>c \<in> set ds. c < 128"
    by (fastforce simp: list_all_iff ascii_digit_iff)
  moreover from 3 have "\<forall>c \<in> set frac. c < 128"
    by (fastforce simp: list_all_iff ascii_digit_iff)
  ultimately show ?thesis using s by auto
qed

lemma numeric_spec_is_number: "numeric_spec s \<Longrightarrow> is_number s"
  unfolding numeric_spec_def is_number_shape list_all_iff
  using ascii_digit_decimal by blast

lemma is_number_ascii_numeric_spec:
  assumes "is_number s" and "\<forall>c \<in> set s. c < 128"
  shows "numeric_spec s"
proof -
  from assms(1) obtain sign ds frac where s: "s = sign @ ds @ frac"
    and 1: "sign = [] \<or> sign = U ''+'' \<or> sign = U ''-''"
    and 2: "ds \<noteq> []" "list_all is_decimal ds"
    and 3: "frac = [] \<or> (\<exists>fs. frac = cp (CHR ''.'') # fs \<and> fs \<noteq> [] \<and> list_all is_decimal fs)"
    unfolding is_number_shape by blast
  from s assms(2) have small: "\<forall>c \<in> set ds. c < 128" "\<forall>c \<in> set frac. c < 128" by auto
  with 2 have ds: "list_all ascii_digit ds"
    by (simp add: list_all_iff decimal_ascii_digit)
  from 3 small have frac: "frac = [] \<or> (\<exists>fs. frac = cp (CHR ''.'') # fs \<and> fs \<noteq> [] \<and> list_all ascii_digit fs)"
    by (auto simp: list_all_iff decimal_ascii_digit)
  from s 1 2(1) ds frac show ?thesis
    unfolding numeric_spec_def by blast
qed

text \<open>
  Claim C4. The claim's rule names the digits; \<open>_is_number\<close> matches \<open>\d\<close>, which on a
  \<open>str\<close> is every decimal digit of the Unicode database. The claim's eight examples
  come out as it says, but the full-width digits \<open>123\<close> (code points FF11, FF12,
  FF13), which the line edit can hold, are classified numeric although they are not
  numeric under the rule.
\<close>

theorem C4_is_number_fullwidth:
  "is_number [0xFF11, 0xFF12, 0xFF13]
   \<and> \<not> numeric_spec [0xFF11, 0xFF12, 0xFF13]
   \<and> is_number (U ''123'') \<and> is_number (U ''-4.5'') \<and> is_number (U ''+10'')
   \<and> \<not> is_number (U ''12.3.4'') \<and> \<not> is_number (U ''abc'') \<and> \<not> is_number (U ''1e5'')
   \<and> \<not> is_number [] \<and> \<not> is_number (U '' 5'')"
proof -
  have "is_number [0xFF11, 0xFF12, 0xFF13]"
    "is_number (U ''123'')" "is_number (U ''-4.5'')" "is_number (U ''+10'')"
    "\<not> is_number (U ''12.3.4'')" "\<not> is_number (U ''abc'')" "\<not> is_number (U ''1e5'')"
    "\<not> is_number []" "\<not> is_number (U '' 5'')"
    by code_simp+
  moreover have "\<not> numeric_spec [0xFF11, 0xFF12, 0xFF13]"
    using numeric_spec_ascii [of "[0xFF11, 0xFF12, 0xFF13]"] by auto
  ultimately show ?thesis by blast
qed

section \<open>Typed comparison in AddressSearchToolbar.py\<close>

lemma replace_quote_double: "replace_char s squote [squote, squote] = double_quotes s"
  by (induction s) (simp_all add: replace_char_def)

lemma tb_expr_filter_equals:
  "tb_expr_filter field 0 filt
     = Inr (if is_number filt then U ''('' @ [dquote] @ field @ [dquote] @ U '' = '' @ filt @ U '')''
            else U ''('' @ [dquote] @ field @ [dquote] @ U '' = '' @ [squote]
                   @ double_quotes filt @ [squote] @ U '')'')"
  by (simp add: tb_expr_filter_def replace_quote_double)

lemma tb_expr_filter_not_numeric:
  assumes "\<not> is_number filt"
  shows "tb_expr_filter field 1 filt = Inl (NonNumericComparison GreaterThan)"
    and "tb_expr_filter field 2 filt = Inl (NonNumericComparison LessThan)"
  using assms by (simp_all add: tb_expr_filter_def)

lemma tb_expr_filter_not_numeric_ascii:
  assumes "\<not> numeric_spec filt" and "\<forall>c \<in> set filt. c < 128"
  shows "tb_expr_filter field 1 filt = Inl (NonNumericComparison GreaterThan)"
    and "tb_expr_filter field 2 filt = Inl (NonNumericComparison LessThan)"
  using assms is_number_ascii_numeric_spec tb_expr_filter_not_numeric by blast+

lemma tb_run_search_not_numeric:
  assumes nn: "\<not> is_number (strip (edit_filter d))"
    and use: "chk_use_filter d"
    and fld: "strip (current_text (combo_field_items d) (combo_field_index d)) \<noteq> []"
    and op: "combo_op d = 1 \<or> combo_op d = 2"
    and ne: "strip (edit_filter d) \<noteq> []"
  shows "\<forall>e. tb_run_search lower h d \<noteq> Inr e"
    and "tb_get_selected_layer h d = Some lyr
      \<Longrightarrow> tb_expr_free lower (layer_fields lyr) (strip (edit_free d)) = Inr x
      \<Longrightarrow> tb_run_search lower h d
          = Inl (NonNumericComparison (if combo_op d = 1 then GreaterThan else LessThan))"
proof -
  from nn op have f: "tb_expr_filter (strip (current_text (combo_field_items d) (combo_field_index d)))
      (combo_op d) (strip (edit_filter d))
    = Inl (NonNumericComparison (if combo_op d = 1 then GreaterThan else LessThan))"
    by (auto simp: tb_expr_filter_not_numeric)
  show "\<forall>e. tb_run_search lower h d \<noteq> Inr e"
    using use fld ne f
    by (simp add: tb_run_search_def Let_def split: option.splits sum.splits)
  show "tb_get_selected_layer h d = Some lyr
      \<Longrightarrow> tb_expr_free lower (layer_fields lyr) (strip (edit_free d)) = Inr x
      \<Longrightarrow> tb_run_search lower h d
          = Inl (NonNumericComparison (if combo_op d = 1 then GreaterThan else LessThan))"
    using use fld ne f
    by (simp add: tb_run_search_def Let_def split: option.splits sum.splits)
qed

text \<open>
  Claim C5. A term that \<open>_is_number\<close> rejects gets the non-numeric warning from
  "greater than" (index 1) and "less than" (index 2), as the claim says of \<open>abc\<close>. The
  full-width digits \<open>123\<close> are not numeric under the shared rule, yet \<open>_is_number\<close>
  accepts them: the comparison emits a clause with them unquoted, and \<open>run_search\<close>
  hands it to the host.
\<close>

theorem C5_fullwidth_comparison:
  "\<not> numeric_spec [0xFF11, 0xFF12, 0xFF13]
   \<and> tb_expr_filter (U ''pop'') 1 [0xFF11, 0xFF12, 0xFF13]
       = Inr (U ''('' @ [dquote] @ U ''pop'' @ [dquote] @ U '' > '' @ [0xFF11, 0xFF12, 0xFF13]
                @ U '')'')
   \<and> tb_expr_filter (U ''pop'') 2 [0xFF11, 0xFF12, 0xFF13]
       = Inr (U ''('' @ [dquote] @ U ''pop'' @ [dquote] @ U '' < '' @ [0xFF11, 0xFF12, 0xFF13]
                @ U '')'')
   \<and> tb_run_search lower_ascii
       \<lparr>project_layers =
          [\<lparr>layer_id = U ''L1'', layer_name = U ''towns'', layer_kind = VectorLayer,
            layer_fields = [\<lparr>field_name = U ''pop'', field_type = QInt,
                              field_typeName = Some (U ''Integer'')\<rparr>]\<rparr>],
        active_layer = None, selection = (\<lambda>i. []), accepts_no_active_layer = True,
        settings = None, message_bar = []\<rparr>
       \<lparr>edit_free = [], advanced_visible = True, toggle_adv_checked = True,
        combo_logic = 0, chk_use_filter = True, combo_field_items = [U ''pop''],
        combo_field_index = 0, combo_op = 1, edit_filter = [0xFF11, 0xFF12, 0xFF13],
        combo_layer_names = [U ''towns''], combo_layer_index = 1, lbl_layer_info = None,
        tbl_headers = [], tbl_rows = [], list_files = [], edit_folder = [],
        edit_ext = [], last_layer_id = None\<rparr>
       = Inr (U ''('' @ [dquote] @ U ''pop'' @ [dquote] @ U '' > '' @ [0xFF11, 0xFF12, 0xFF13]
                @ U '')'')
   \<and> tb_expr_filter (U ''pop'') 1 (U ''abc'') = Inl (NonNumericComparison GreaterThan)"
proof -
  have "\<not> numeric_spec [0xFF11, 0xFF12, 0xFF13]"
    using numeric_spec_ascii [of "[0xFF11, 0xFF12, 0xFF13]"] by auto
  moreover have "tb_expr_filter (U ''pop'') 1 [0xFF11, 0xFF12, 0xFF13]
       = Inr (U ''('' @ [dquote] @ U ''pop'' @ [dquote] @ U '' > '' @ [0xFF11, 0xFF12, 0xFF13]
                @ U '')'')"
    "tb_expr_filter (U ''pop'') 2 [0xFF11, 0xFF12, 0xFF13]
       = Inr (U ''('' @ [dquote] @ U ''pop'' @ [dquote] @ U '' < '' @ [0xFF11, 0xFF12, 0xFF13]
                @ U '')'')"
    "tb_expr_filter (U ''pop'') 1 (U ''abc'') = Inl (NonNumericComparison GreaterThan)"
    by code_simp+
  moreover have "tb_run_search lower_ascii
       \<lparr>project_layers =
          [\<lparr>layer_id = U ''L1'', layer_name = U ''towns'', layer_kind = VectorLayer,
            layer_fields = [\<lparr>field_name = U ''pop'', field_type = QInt,
                              field_typeName = Some (U ''Integer'')\<rparr>]\<rparr>],
        active_layer = None, selection = (\<lambda>i. []), accepts_no_active_layer = True,
        settings = None, message_bar = []\<rparr>
       \<lparr>edit_free = [], advanced_visible = True, toggle_adv_checked = True,
        combo_logic = 0, chk_use_filter = True, combo_field_items = [U ''pop''],
        combo_field_index = 0, combo_op = 1, edit_filter = [0xFF11, 0xFF12, 0xFF13],
        combo_layer_names = [U ''towns''], combo_layer_index = 1, lbl_layer_info = None,
        tbl_headers = [], tbl_rows = [], list_files = [], edit_folder = [],
        edit_ext = [], last_layer_id = None\<rparr>
       = Inr (U ''('' @ [dquote] @ U ''pop'' @ [dquote] @ U '' > '' @ [0xFF11, 0xFF12, 0xFF13]
                @ U '')'')"
    by code_simp
  ultimately show ?thesis by blast
qed

text \<open>
  Claim C6. With "equals" (index 0) a term that \<open>_is_number\<close> accepts is emitted
  unquoted and any other term in single quotes with its quotes doubled, as the claim
  says of \<open>-4.5\<close> and \<open>it's\<close>. The full-width digits \<open>123\<close> are not numeric under the
  shared rule, yet they are emitted unquoted.
\<close>

theorem C6_fullwidth_equals:
  "\<not> numeric_spec [0xFF11, 0xFF12, 0xFF13]
   \<and> tb_expr_filter (U ''pop'') 0 [0xFF11, 0xFF12, 0xFF13]
       = Inr (U ''('' @ [dquote] @ U ''pop'' @ [dquote] @ U '' = '' @ [0xFF11, 0xFF12, 0xFF13]
                @ U '')'')
   \<and> tb_expr_filter (U ''pop'') 0 (U ''-4.5'')
       = Inr (U ''('' @ [dquote] @ U ''pop'' @ [dquote] @ U '' = -4.5)'')
   \<and> tb_expr_filter (U ''name'') 0 (U ''it's'')
       = Inr (U ''('' @ [dquote] @ U ''name'' @ [dquote] @ U '' = '' @ [squote] @ U ''it''
                @ [squote, squote] @ U ''s'' @ [squote] @ U '')'')"
proof -
  have "\<not> numeric_spec [0xFF11, 0xFF12, 0xFF13]"
    using numeric_spec_ascii [of "[0xFF11, 0xFF12, 0xFF13]"] by auto
  moreover have "tb_expr_filter (U ''pop'') 0 [0xFF11, 0xFF12, 0xFF13]
       = Inr (U ''('' @ [dquote] @ U ''pop'' @ [dquote] @ U '' = '' @ [0xFF11, 0xFF12, 0xFF13]
                @ U '')'')"
    "tb_expr_filter (U ''pop'') 0 (U ''-4.5'')
       = Inr (U ''('' @ [dquote] @ U ''pop'' @ [dquote] @ U '' = -4.5)'')"
    "tb_expr_filter (U ''name'') 0 (U ''it's'')
       = Inr (U ''('' @ [dquote] @ U ''name'' @ [dquote] @ U '' = '' @ [squote] @ U ''it''
                @ [squote, squote] @ U ''s'' @ [squote] @ U '')'')"
    by code_simp+
  ultimately show ?thesis by blast
qed

section \<open>The free-word clause\<close>

lemma replace_char_absent: "old \<notin> set s \<Longrightarrow> replace_char s old new = s"
  by (induction s) (auto simp: replace_char_def)

lemma dlg_escape_like_quote_free: "squote \<notin> set t \<Longrightarrow> dlg_escape_like t = t"
  by (simp add: dlg_escape_like_def replace_char_absent)

lemma escape_like_charwise: "escape_like t = backslash_escaped t"
  by (induction t) (simp_all add: escape_like_def replace_char_def)

lemma backslash_escaped_plain:
  "bslash \<notin> set t \<Longrightarrow> cp (CHR ''%'') \<notin> set t \<Longrightarrow> cp (CHR ''_'') \<notin> set t
     \<Longrightarrow> backslash_escaped t = t"
  by (induction t) auto

text \<open>
  Claim C2 says that the free-word clause of every term without quotes holds the term
  itself between the two \<open>%\<close>. In AddressSearchToolbar.py the term \<open>a_b\<close> is written
  with a backslash before the underscore, so the claim fails there.
\<close>

theorem C2_toolbar_counterexample:
  "squote \<notin> set (U ''a_b'')
   \<and> tb_expr_free lower_ascii [\<lparr>field_name = U ''addr'', field_type = QString,
                     field_typeName = Some (U ''String'')\<rparr>] (U ''a_b'')
       = Inr (Some (U ''(lower('' @ [dquote] @ U ''addr'' @ [dquote] @ U '') LIKE lower('' @ [squote]
                      @ U ''%a'' @ [bslash] @ U ''_b%'' @ [squote] @ U ''))''))
   \<and> tb_expr_free lower_ascii [\<lparr>field_name = U ''addr'', field_type = QString,
                     field_typeName = Some (U ''String'')\<rparr>] (U ''a_b'')
       \<noteq> Inr (Some (U ''(lower('' @ [dquote] @ U ''addr'' @ [dquote] @ U '') LIKE lower('' @ [squote]
                      @ U ''%a_b%'' @ [squote] @ U ''))''))"
  by code_simp

text \<open>
  Claim C2, amended. For every non-empty trimmed term \<open>t\<close> without quote characters,
  the free-word expression is one parenthesised group holding exactly one clause
  \<open>lower("field") LIKE lower('%E%')\<close> for each string field, in the fields' order and
  joined by \<open>OR\<close>, and no clause for any other field. In AddressSearchDialog.py
  \<open>E\<close> is the term and a string field is one of type \<open>QVariant.String\<close>; the
  expression is absent when the term is empty or there is no string field. In
  AddressSearchToolbar.py \<open>E\<close> is the term with a backslash before each backslash,
  \<open>%\<close> and \<open>_\<close> and every other character as it is (so the term itself when it has
  none of the three), and a string field is one whose type name is a string type; the
  expression is absent when the term is empty, and with no string field the search
  ends with the no-searchable-fields warning.
\<close>

theorem C2_contains_over_fields:
  assumes "t \<noteq> []" and "squote \<notin> set t"
  shows "dlg_build_or_contains_expr (dlg_str_fields lyr) t
      = (if filter (\<lambda>f. field_type f = QString) (layer_fields lyr) = [] then None
         else Some (U ''('' @ join (U '' OR '')
                (map (\<lambda>f. U ''lower('' @ [dquote] @ field_name f @ [dquote] @ U '') LIKE lower(''
                            @ [squote] @ U ''%'' @ t @ U ''%'' @ [squote] @ U '')'')
                   (filter (\<lambda>f. field_type f = QString) (layer_fields lyr))) @ U '')''))
    \<and> dlg_build_or_contains_expr (dlg_str_fields lyr) [] = None
    \<and> tb_expr_free lower flds t
      = (if filter (is_string_field lower) flds = [] then Inl NoSearchableFields
         else Inr (Some (U ''('' @ join (U '' OR '')
                (map (\<lambda>f. U ''lower('' @ [dquote] @ field_name f @ [dquote] @ U '') LIKE lower(''
                            @ [squote] @ U ''%'' @ backslash_escaped t @ U ''%'' @ [squote]
                            @ U '')'')
                   (filter (is_string_field lower) flds)) @ U '')'')))
    \<and> tb_expr_free lower flds [] = Inr None
    \<and> (bslash \<notin> set t \<and> cp (CHR ''%'') \<notin> set t \<and> cp (CHR ''_'') \<notin> set t
         \<longrightarrow> backslash_escaped t = t)"
proof -
  from assms have "dlg_build_or_contains_expr (dlg_str_fields lyr) t
      = (if filter (\<lambda>f. field_type f = QString) (layer_fields lyr) = [] then None
         else Some (U ''('' @ join (U '' OR '')
                (map (\<lambda>f. U ''lower('' @ [dquote] @ field_name f @ [dquote] @ U '') LIKE lower(''
                            @ [squote] @ U ''%'' @ t @ U ''%'' @ [squote] @ U '')'')
                   (filter (\<lambda>f. field_type f = QString) (layer_fields lyr))) @ U '')''))"
    by (simp add: dlg_build_or_contains_expr_def dlg_str_fields_def dlg_escape_like_quote_free
        dlg_contains_clause_def comp_def)
  moreover have "dlg_build_or_contains_expr (dlg_str_fields lyr) [] = None"
    by (simp add: dlg_build_or_contains_expr_def dlg_escape_like_def replace_char_def)
  moreover from assms have "tb_expr_free lower flds t
      = (if filter (is_string_field lower) flds = [] then Inl NoSearchableFields
         else Inr (Some (U ''('' @ join (U '' OR '')
                (map (\<lambda>f. U ''lower('' @ [dquote] @ field_name f @ [dquote] @ U '') LIKE lower(''
                            @ [squote] @ U ''%'' @ backslash_escaped t @ U ''%'' @ [squote]
                            @ U '')'')
                   (filter (is_string_field lower) flds)) @ U '')'')))"
    by (simp add: tb_expr_free_def tb_contains_clause_def escape_like_charwise)
  moreover have "tb_expr_free lower flds [] = Inr None"
    by (simp add: tb_expr_free_def)
  ultimately show ?thesis
    using backslash_escaped_plain by blast
qed

theorem C2_contains_over_fields_witness:
  "dlg_build_or_contains_expr
     (dlg_str_fields
        \<lparr>layer_id = U ''L1'', layer_name = U ''towns'', layer_kind = VectorLayer,
         layer_fields = [\<lparr>field_name = U ''addr'', field_type = QString,
                           field_typeName = Some (U ''String'')\<rparr>,
                         \<lparr>field_name = U ''id'', field_type = QInt,
                           field_typeName = Some (U ''Integer'')\<rparr>,
                         \<lparr>field_name = U ''nm'', field_type = QString,
                           field_typeName = Some (U ''VARCHAR'')\<rparr>]\<rparr>)
     (U ''5%_a'' @ [bslash] @ U ''b'')
     = Some (U ''(lower('' @ [dquote] @ U ''addr'' @ [dquote] @ U '') LIKE lower('' @ [squote]
              @ U ''%5%_a'' @ [bslash] @ U ''b%'' @ [squote] @ U '') OR lower('' @ [dquote]
              @ U ''nm'' @ [dquote] @ U '') LIKE lower('' @ [squote]
              @ U ''%5%_a'' @ [bslash] @ U ''b%'' @ [squote] @ U ''))'')
   \<and> tb_expr_free lower_ascii
       [\<lparr>field_name = U ''addr'', field_type = QString,
         field_typeName = Some (U ''String'')\<rparr>,
        \<lparr>field_name = U ''id'', field_type = QInt,
         field_typeName = Some (U ''Integer'')\<rparr>,
        \<lparr>field_name = U ''nm'', field_type = QString,
         field_typeName = Some (U ''VARCHAR'')\<rparr>]
       (U ''5%_a'' @ [bslash] @ U ''b'')
     = Inr (Some (U ''(lower('' @ [dquote] @ U ''addr'' @ [dquote] @ U '') LIKE lower('' @ [squote]
              @ U ''%5'' @ [bslash] @ U ''%'' @ [bslash] @ U ''_a'' @ [bslash, bslash]
              @ U ''b%'' @ [squote] @ U '') OR lower('' @ [dquote]
              @ U ''nm'' @ [dquote] @ U '') LIKE lower('' @ [squote]
              @ U ''%5'' @ [bslash] @ U ''%'' @ [bslash] @ U ''_a'' @ [bslash, bslash]
              @ U ''b%'' @ [squote] @ U ''))''))
   \<and> backslash_escaped (U ''central'') = U ''central''"
  (is "dlg_build_or_contains_expr (dlg_str_fields ?lyr) ?t = ?e1
       \<and> tb_expr_free lower_ascii ?flds ?t = ?e2 \<and> ?e3")
proof -
  have pre: "?t \<noteq> []" "squote \<notin> set ?t" by simp_all
  note inst = C2_contains_over_fields [OF pre, of ?lyr lower_ascii ?flds]
  from inst have "dlg_build_or_contains_expr (dlg_str_fields ?lyr) ?t = ?e1"
    by simp
  moreover from inst have "tb_expr_free lower_ascii ?flds ?t = ?e2"
    by (simp add: is_string_field_def lower_ascii_def)
  moreover have ?e3
    using C2_contains_over_fields [of "U ''central''"] by simp
  ultimately show ?thesis by blast
qed

section \<open>Combining the two expressions\<close>





text \<open>
  Claim C3 says that two present expressions are combined into \<open>(a AND b)\<close> with one
  enclosing pair of parentheses. AddressSearchDialog.py does so; AddressSearchToolbar.py
  returns \<open>(a) AND (b)\<close>, with no enclosing pair.
\<close>

theorem C3_toolbar_counterexample:
  "dlg_combine_expr (Some (U ''A'')) (Some (U ''B'')) Label_and = Some (U ''(A AND B)'')
   \<and> tb_final_expr (Some (U ''A'')) (Some (U ''B'')) True = Some (U ''(A) AND (B)'')
   \<and> tb_final_expr (Some (U ''A'')) (Some (U ''B'')) True \<noteq> Some (U ''(A AND B)'')"
  by (simp add: dlg_combine_expr_def tb_final_expr_def)

text \<open>
  Claim C3, amended. For all non-empty expressions \<open>a\<close> and \<open>b\<close>, \<open>_combine_expr\<close> of
  AddressSearchDialog.py returns \<open>(a AND b)\<close> or \<open>(a OR b)\<close>, inside one enclosing pair
  of parentheses, and \<open>run_search\<close> of AddressSearchToolbar.py returns \<open>(a) AND (b)\<close>
  or \<open>(a) OR (b)\<close>, each operand inside its own pair. In both, the policy changes the
  joining operator only.
\<close>

theorem C3_combine_both_present:
  assumes "a \<noteq> []" and "b \<noteq> []"
  shows "dlg_combine_expr (Some a) (Some b) Label_and = Some (U ''('' @ a @ U '' AND '' @ b @ U '')'')
    \<and> dlg_combine_expr (Some a) (Some b) Label_or = Some (U ''('' @ a @ U '' OR '' @ b @ U '')'')
    \<and> tb_final_expr (Some a) (Some b) True = Some (U ''('' @ a @ U '') AND ('' @ b @ U '')'')
    \<and> tb_final_expr (Some a) (Some b) False = Some (U ''('' @ a @ U '') OR ('' @ b @ U '')'')"
  using assms by (simp add: dlg_combine_expr_def tb_final_expr_def)

theorem C3_combine_both_present_witness:
  "dlg_combine_expr (Some (U ''(x)'')) (Some (U ''(y)'')) Label_and = Some (U ''((x) AND (y))'')
   \<and> dlg_combine_expr (Some (U ''(x)'')) (Some (U ''(y)'')) Label_or = Some (U ''((x) OR (y))'')
   \<and> tb_final_expr (Some (U ''(x)'')) (Some (U ''(y)'')) True = Some (U ''((x)) AND ((y))'')
   \<and> tb_final_expr (Some (U ''(x)'')) (Some (U ''(y)'')) False = Some (U ''((x)) OR ((y))'')"
proof -
  have "U ''(x)'' \<noteq> []" and "U ''(y)'' \<noteq> []" by simp_all
  then show ?thesis
    using C3_combine_both_present [of "U ''(x)''" "U ''(y)''"] by simp
qed



section \<open>The no-searchable-fields warning\<close>

lemma submit_expr_not_fields: "submit_expr x \<noteq> Inl NoSearchableFields"
  by (simp add: submit_expr_def split: option.splits)

lemma tb_expr_filter_not_fields: "tb_expr_filter field op_idx filt \<noteq> Inl NoSearchableFields"
  by (simp add: tb_expr_filter_def Let_def)

lemma tb_expr_free_fields:
  "tb_expr_free lower flds free = Inl e \<longleftrightarrow>
     e = NoSearchableFields \<and> free \<noteq> [] \<and> filter (is_string_field lower) flds = []"
  by (auto simp: tb_expr_free_def Let_def)

lemma tb_run_search_no_fields:
  "tb_run_search lower h d = Inl NoSearchableFields \<longleftrightarrow>
     (\<exists>lyr. tb_get_selected_layer h d = Some lyr \<and> strip (edit_free d) \<noteq> []
        \<and> filter (is_string_field lower) (layer_fields lyr) = [])"
proof (cases "tb_get_selected_layer h d")
  case None
  then show ?thesis by (simp add: tb_run_search_def)
next
  case (Some lyr)
  show ?thesis
  proof (cases "tb_expr_free lower (layer_fields lyr) (strip (edit_free d))")
    case (Inl e)
    then have "e = NoSearchableFields" "strip (edit_free d) \<noteq> []"
      "filter (is_string_field lower) (layer_fields lyr) = []"
      by (simp_all add: tb_expr_free_fields)
    with Some Inl show ?thesis
      by (simp add: tb_run_search_def Let_def)
  next
    case (Inr x)
    then have "\<not> (strip (edit_free d) \<noteq> [] \<and> filter (is_string_field lower) (layer_fields lyr) = [])"
      by (auto simp: tb_expr_free_def Let_def)
    with Some Inr show ?thesis
      using submit_expr_not_fields tb_expr_filter_not_fields
      by (auto simp: tb_run_search_def Let_def split: sum.splits)
  qed
qed

lemma dlg_run_search_no_fields:
  "dlg_run_search act d = Inl NoSearchableFields \<longleftrightarrow>
     (\<exists>lyr. act = Some lyr \<and> layer_kind lyr = VectorLayer
        \<and> (strip (freeword_edit d) \<noteq> [] \<or> (refine_enable d \<and> strip (refine_edit d) \<noteq> []))
        \<and> dlg_str_fields lyr = [])"
  using submit_expr_not_fields
  by (auto simp: dlg_run_search_def Let_def split: option.splits layer_kind.splits)

text \<open>
  Claim C8 says that the warning is never raised when the free-word text is absent.
  In AddressSearchDialog.py a search with the refinement alone, on a layer with no
  string field, ends with it.
\<close>

theorem C8_dialog_counterexample:
  "strip (freeword_edit \<lparr>freeword_edit = [], refine_enable = True, refine_edit = U ''A'',
                          match_combo = Label_exact, join_combo = Label_and\<rparr>) = []
   \<and> dlg_run_search
       (Some \<lparr>layer_id = U ''L1'', layer_name = U ''towns'', layer_kind = VectorLayer,
              layer_fields = [\<lparr>field_name = U ''id'', field_type = QInt,
                                field_typeName = Some (U ''Integer'')\<rparr>]\<rparr>)
       \<lparr>freeword_edit = [], refine_enable = True, refine_edit = U ''A'',
        match_combo = Label_exact, join_combo = Label_and\<rparr>
     = Inl NoSearchableFields"
  by code_simp

text \<open>
  Claim C8, amended. In AddressSearchToolbar.py the search ends with the
  no-searchable-fields warning exactly when a layer is selected, the free-word text is
  present and the layer has no string field; so never on a search with the refinement
  alone. In AddressSearchDialog.py it ends with that warning exactly when the active
  layer is a vector layer, the free-word text or the text of an enabled refinement is
  present, and the layer has no string field; there the refinement runs over the
  string fields too.
\<close>

theorem C8_no_searchable_fields:
  "(tb_run_search lower h d = Inl NoSearchableFields \<longleftrightarrow>
      (\<exists>lyr. tb_get_selected_layer h d = Some lyr \<and> strip (edit_free d) \<noteq> []
         \<and> filter (is_string_field lower) (layer_fields lyr) = []))
   \<and> (dlg_run_search act dd = Inl NoSearchableFields \<longleftrightarrow>
      (\<exists>lyr. act = Some lyr \<and> layer_kind lyr = VectorLayer
         \<and> (strip (freeword_edit dd) \<noteq> []
              \<or> (refine_enable dd \<and> strip (refine_edit dd) \<noteq> []))
         \<and> dlg_str_fields lyr = []))"
  using tb_run_search_no_fields dlg_run_search_no_fields by blast

theorem C8_no_searchable_fields_witness:
  "tb_run_search lower_ascii
       \<lparr>project_layers =
          [\<lparr>layer_id = U ''L1'', layer_name = U ''towns'', layer_kind = VectorLayer,
            layer_fields = [\<lparr>field_name = U ''id'', field_type = QInt,
                              field_typeName = Some (U ''Integer'')\<rparr>]\<rparr>],
        active_layer = None, selection = (\<lambda>i. []), accepts_no_active_layer = True,
        settings = None, message_bar = []\<rparr>
       \<lparr>edit_free = U ''park'', advanced_visible = False, toggle_adv_checked = False,
        combo_logic = 0, chk_use_filter = False, combo_field_items = [U ''id''],
        combo_field_index = 0, combo_op = 0, edit_filter = [],
        combo_layer_names = [U ''towns''], combo_layer_index = 1, lbl_layer_info = None,
        tbl_headers = [], tbl_rows = [], list_files = [], edit_folder = [],
        edit_ext = [], last_layer_id = None\<rparr>
     = Inl NoSearchableFields
   \<and> tb_run_search lower_ascii
       \<lparr>project_layers =
          [\<lparr>layer_id = U ''L1'', layer_name = U ''towns'', layer_kind = VectorLayer,
            layer_fields = [\<lparr>field_name = U ''id'', field_type = QInt,
                              field_typeName = Some (U ''Integer'')\<rparr>]\<rparr>],
        active_layer = None, selection = (\<lambda>i. []), accepts_no_active_layer = True,
        settings = None, message_bar = []\<rparr>
       \<lparr>edit_free = [], advanced_visible = True, toggle_adv_checked = True,
        combo_logic = 0, chk_use_filter = True, combo_field_items = [U ''id''],
        combo_field_index = 0, combo_op = 0, edit_filter = U ''7'',
        combo_layer_names = [U ''towns''], combo_layer_index = 1, lbl_layer_info = None,
        tbl_headers = [], tbl_rows = [], list_files = [], edit_folder = [],
        edit_ext = [], last_layer_id = None\<rparr>
     \<noteq> Inl NoSearchableFields"
  (is "tb_run_search lower_ascii ?h ?d1 = ?r \<and> tb_run_search lower_ascii ?h ?d2 \<noteq> ?r")
proof -
  have sel1: "tb_get_selected_layer ?h ?d1 = Some (hd (project_layers ?h))" by code_simp
  have "strip (edit_free ?d1) \<noteq> []"
    and "filter (is_string_field lower_ascii) (layer_fields (hd (project_layers ?h))) = []"
    by code_simp+
  with sel1 have 1: "tb_run_search lower_ascii ?h ?d1 = ?r"
    using C8_no_searchable_fields [of lower_ascii ?h ?d1] by blast
  have "strip (edit_free ?d2) = []" by code_simp
  then have 2: "tb_run_search lower_ascii ?h ?d2 \<noteq> ?r"
    using C8_no_searchable_fields [of lower_ascii ?h ?d2] by blast
  from 1 2 show ?thesis by blast
qed

section \<open>Quote escaping\<close>

lemma dlg_escape_like_doubles: "dlg_escape_like s = double_quotes s"
  by (induction s) (simp_all add: dlg_escape_like_def replace_char_def)

lemma count_replace_char:
  "old \<noteq> c \<Longrightarrow> c \<notin> set new \<Longrightarrow> count_list (replace_char s old new) c = count_list s c"
  by (induction s) (simp_all add: replace_char_def)

lemma escape_like_quote_count: "count_list (escape_like s) squote = count_list s squote"
  by (simp add: escape_like_def count_replace_char)

lemma double_quotes_count: "count_list (double_quotes s) squote = 2 * count_list s squote"
  by (induction s) simp_all

text \<open>
  Claim C1 asks for one escaping policy in every clause, with each single quote of the
  term doubled. AddressSearchDialog.py doubles it in every clause, and so does the
  equality clause of AddressSearchToolbar.py; the two pattern clauses of
  AddressSearchToolbar.py leave the quote as it is. The term \<open>a'b\<close>, evaluated:
\<close>

theorem C1_toolbar_quote_not_doubled:
  "tb_expr_free lower_ascii [\<lparr>field_name = U ''addr'', field_type = QString,
                   field_typeName = Some (U ''String'')\<rparr>] (U ''a'b'')
     = Inr (Some (U ''(lower('' @ [dquote] @ U ''addr'' @ [dquote] @ U '') LIKE lower('' @ [squote]
                    @ U ''%a'' @ [squote] @ U ''b%'' @ [squote] @ U ''))''))
   \<and> tb_expr_filter (U ''addr'') 3 (U ''a'b'')
     = Inr (U ''(lower('' @ [dquote] @ U ''addr'' @ [dquote] @ U '') LIKE lower('' @ [squote]
              @ U ''%a'' @ [squote] @ U ''b%'' @ [squote] @ U ''))'')
   \<and> tb_expr_filter (U ''addr'') 0 (U ''a'b'')
     = Inr (U ''('' @ [dquote] @ U ''addr'' @ [dquote] @ U '' = '' @ [squote] @ U ''a''
              @ [squote, squote] @ U ''b'' @ [squote] @ U '')'')
   \<and> dlg_build_or_contains_expr [U ''addr''] (U ''a'b'')
     = Some (U ''(lower('' @ [dquote] @ U ''addr'' @ [dquote] @ U '') LIKE lower('' @ [squote]
               @ U ''%a'' @ [squote, squote] @ U ''b%'' @ [squote] @ U ''))'')"
  by code_simp

section \<open>File search\<close>

lemma contains_sublist: "contains t name \<longleftrightarrow> sublist t name"
  by (induction name) (simp_all add: sublist_Cons_right)

lemma tb_file_hit_matches:
  "tb_file_hit lower exts tokens logic_and p \<longleftrightarrow> file_matches lower exts tokens logic_and p"
proof (cases "length tokens = 1")
  case True
  then obtain t where "tokens = [t]" by (cases tokens) auto
  then show ?thesis
    by (auto simp: tb_file_hit_def file_matches_def contains_sublist)
next
  case False
  then show ?thesis
    by (auto simp: tb_file_hit_def file_matches_def Let_def contains_sublist
        list_all_iff list_ex_iff)
qed

lemma tb_tokens_filter: "tb_tokens kw1 kw2 = filter (\<lambda>k. k \<noteq> []) [kw1, kw2]"
  by (simp add: tb_tokens_def)

text \<open>
  Claim C9. When the file search runs (a base folder that exists, at least one
  keyword, a walk that does not raise), its hits are exactly the paths under the base
  folder, in the order of the walk, that are regular files, whose extension (the
  suffix in lower case, without the dot) is in the allow-list whenever the allow-list
  is not empty, and whose file name contains every token (AND, the first item of the
  combo) or at least one token (OR) as a contiguous run of the same characters:
  nothing is escaped and case is kept. The message reports the number of hits and the
  list shows the first 500. With a single token the name must contain that token,
  whatever the policy.
\<close>

theorem C9_file_match:
  assumes "strip (edit_folder d) \<noteq> []"
    and "folder_isdir (fs (strip (edit_folder d)))"
    and "folder_rglob (fs (strip (edit_folder d))) = Some ps"
    and "tokens = filter (\<lambda>k. k \<noteq> [])
           [strip (edit_free d), if chk_use_filter d then strip (edit_filter d) else []]"
    and "tokens \<noteq> []"
  shows "snd (tb_run_file_search lower fs (h, d))
      = Inr (length (filter (file_matches lower (tb_parse_exts lower (edit_ext d)) tokens
                               (combo_logic d = 0)) ps))
    \<and> list_files (snd (fst (tb_run_file_search lower fs (h, d))))
      = map path_str (take 500
          (filter (file_matches lower (tb_parse_exts lower (edit_ext d)) tokens
                     (combo_logic d = 0)) ps))
    \<and> (\<forall>t p exts. tokens = [t] \<longrightarrow>
          (file_matches lower exts tokens (combo_logic d = 0) p \<longleftrightarrow>
             path_is_file p \<and> (exts = [] \<or> file_ext lower p \<in> set exts)
             \<and> sublist t (path_name p)))"
proof -
  let ?kw1 = "strip (edit_free d)"
  let ?kw2 = "if chk_use_filter d then strip (edit_filter d) else []"
  from assms(4) have tok: "tb_tokens ?kw1 ?kw2 = tokens"
    by (simp only: tb_tokens_filter)
  with assms(5) have kw: "\<not> (?kw1 = [] \<and> ?kw2 = [])"
    by (auto simp: tb_tokens_def)
  have hit: "tb_file_hit lower exts tokens logic_and = file_matches lower exts tokens logic_and"
    for exts logic_and
    by (rule ext) (rule tb_file_hit_matches)
  have "snd (tb_run_file_search lower fs (h, d))
      = Inr (length (filter (tb_file_hit lower (tb_parse_exts lower (edit_ext d)) tokens
                               (combo_logic d = 0)) ps))
    \<and> list_files (snd (fst (tb_run_file_search lower fs (h, d))))
      = map path_str (take 500
          (filter (tb_file_hit lower (tb_parse_exts lower (edit_ext d)) tokens
                     (combo_logic d = 0)) ps))"
  proof (cases "chk_use_filter d")
    case True
    with assms(1-3) kw tok show ?thesis by (auto simp: Let_def)
  next
    case False
    with assms(1-3) kw tok show ?thesis by (auto simp: Let_def)
  qed
  then show ?thesis
    unfolding hit by (auto simp: file_matches_def)
qed

theorem C9_file_match_witness:
  "(\<lambda>r. (snd r, list_files (snd (fst r))))
     (tb_run_file_search lower_ascii
        (\<lambda>base. \<lparr>folder_isdir = True,
                  folder_rglob = Some
                    [\<lparr>path_str = U ''/b/parklist.pdf'', path_name = U ''parklist.pdf'',
                      path_is_file = True\<rparr>,
                     \<lparr>path_str = U ''/b/park.txt'', path_name = U ''park.txt'',
                      path_is_file = True\<rparr>,
                     \<lparr>path_str = U ''/b/central.pdf'', path_name = U ''central.pdf'',
                      path_is_file = True\<rparr>,
                     \<lparr>path_str = U ''/b/Park.pdf'', path_name = U ''Park.pdf'',
                      path_is_file = True\<rparr>,
                     \<lparr>path_str = U ''/b/park.pdf.d'', path_name = U ''park.pdf.d'',
                      path_is_file = False\<rparr>,
                     \<lparr>path_str = U ''/b/carpark.PDF'', path_name = U ''carpark.PDF'',
                      path_is_file = True\<rparr>]\<rparr>)
        (\<lparr>project_layers = [], active_layer = None, selection = (\<lambda>i. []),
          accepts_no_active_layer = True, settings = None, message_bar = []\<rparr>,
         \<lparr>edit_free = U ''park'', advanced_visible = False, toggle_adv_checked = False,
          combo_logic = 0, chk_use_filter = False, combo_field_items = [],
          combo_field_index = - 1, combo_op = 0, edit_filter = [],
          combo_layer_names = [], combo_layer_index = 0, lbl_layer_info = None,
          tbl_headers = [], tbl_rows = [], list_files = [U ''/old''],
          edit_folder = U ''/b'', edit_ext = U ''pdf'', last_layer_id = None\<rparr>))
   = (Inr 2, [U ''/b/parklist.pdf'', U ''/b/carpark.PDF''])"
  (is "_ (tb_run_file_search lower_ascii ?fs (?h, ?d)) = _")
proof -
  let ?ps = "the (folder_rglob (?fs (U ''/b'')))"
  have pre: "strip (edit_folder ?d) \<noteq> []"
    "folder_isdir (?fs (strip (edit_folder ?d)))"
    "folder_rglob (?fs (strip (edit_folder ?d))) = Some ?ps"
    "[U ''park''] = filter (\<lambda>k. k \<noteq> [])
       [strip (edit_free ?d), if chk_use_filter ?d then strip (edit_filter ?d) else []]"
    "[U ''park''] \<noteq> []"
    by code_simp+
  note inst = C9_file_match [OF pre, of lower_ascii ?h]
  have hits: "filter (file_matches lower_ascii (tb_parse_exts lower_ascii (edit_ext ?d))
                        [U ''park''] (combo_logic ?d = 0)) ?ps
      = [hd ?ps, last ?ps]"
    by code_simp
  from inst show ?thesis
    unfolding hits by (simp del: tb_run_file_search.simps)
qed

section \<open>Clearing the conditions\<close>

lemma strip_Nil: "strip [] = []"
  by (simp add: strip_def)

lemma tb_get_selected_layer_blank:
  "combo_layer_index d = 0 \<Longrightarrow> tb_get_selected_layer h d = None"
  by (simp add: tb_get_selected_layer_def combo_layer_items_def current_text_def strip_Nil)

lemma tb_unselect_layer_dialog:
  "snd (tb_unselect_layer (h, d))
     = d\<lparr>combo_layer_index := 0, combo_field_items := [], combo_field_index := - 1,
          lbl_layer_info := None\<rparr>"
  by (simp add: tb_get_selected_layer_blank Let_def)

lemma tb_unselect_layer_active:
  "accepts_no_active_layer h \<Longrightarrow> active_layer (fst (tb_unselect_layer (h, d))) = None"
  by (simp add: tb_get_selected_layer_blank Let_def tb_clear_qgis_active_layer_def
      tb_save_state_def split: option.splits)

text \<open>
  Claim C10. \<open>clear_all\<close> empties the free-word text and the refinement text, unticks
  the refinement checkbox, puts the operator and the join selection back to their
  first item, empties the result table and the file list, and sets the layer combo to
  its blank item, so that no layer is selected (and the host's active layer is unset
  where the host allows it). The folder path and the extension list stay as they
  were.
\<close>

theorem C10_clear_all:
  "edit_free (snd (tb_clear_all (h, d))) = []
   \<and> edit_filter (snd (tb_clear_all (h, d))) = []
   \<and> \<not> chk_use_filter (snd (tb_clear_all (h, d)))
   \<and> combo_op (snd (tb_clear_all (h, d))) = 0
   \<and> combo_logic (snd (tb_clear_all (h, d))) = 0
   \<and> tbl_rows (snd (tb_clear_all (h, d))) = []
   \<and> tbl_headers (snd (tb_clear_all (h, d))) = []
   \<and> list_files (snd (tb_clear_all (h, d))) = []
   \<and> combo_layer_index (snd (tb_clear_all (h, d))) = 0
   \<and> tb_get_selected_layer (fst (tb_clear_all (h, d))) (snd (tb_clear_all (h, d))) = None
   \<and> edit_folder (snd (tb_clear_all (h, d))) = edit_folder d
   \<and> edit_ext (snd (tb_clear_all (h, d))) = edit_ext d
   \<and> (accepts_no_active_layer h \<longrightarrow> active_layer (fst (tb_clear_all (h, d))) = None)"
proof -
  have d': "snd (tb_clear_all (h, d))
    = d\<lparr>edit_free := [], advanced_visible := False, toggle_adv_checked := False,
        combo_logic := 0, chk_use_filter := False, combo_op := 0, edit_filter := [],
        combo_layer_index := 0, combo_field_items := [], combo_field_index := - 1,
        lbl_layer_info := None, tbl_rows := [], tbl_headers := [], list_files := []\<rparr>"
    by (simp add: Let_def tb_unselect_layer_dialog tb_set_advanced_collapsed_def
        del: tb_unselect_layer.simps)
  have "combo_layer_index (snd (tb_clear_all (h, d))) = 0"
    unfolding d' by simp
  then have "tb_get_selected_layer (fst (tb_clear_all (h, d))) (snd (tb_clear_all (h, d))) = None"
    by (rule tb_get_selected_layer_blank)
  moreover have "accepts_no_active_layer h \<longrightarrow> active_layer (fst (tb_clear_all (h, d))) = None"
    using tb_unselect_layer_active [of h]
    by (simp add: Let_def tb_save_state_def del: tb_unselect_layer.simps)
  ultimately show ?thesis unfolding d' by simp
qed


theorem C10_clear_all_witness:
  "(\<lambda>s. (edit_free (snd s), edit_filter (snd s), chk_use_filter (snd s),
          combo_layer_index (snd s), tbl_rows (snd s), list_files (snd s),
          edit_folder (snd s), edit_ext (snd s), active_layer (fst s)))
     (tb_clear_all
       (\<lparr>project_layers =
           [\<lparr>layer_id = U ''L1'', layer_name = U ''towns'', layer_kind = VectorLayer,
             layer_fields = [\<lparr>field_name = U ''addr'', field_type = QString,
                               field_typeName = Some (U ''String'')\<rparr>]\<rparr>],
         active_layer = Some (U ''L1''), selection = (\<lambda>i. [1, 2]),
         accepts_no_active_layer = True, settings = None, message_bar = []\<rparr>,
        \<lparr>edit_free = U ''park'', advanced_visible = True, toggle_adv_checked = True,
         combo_logic = 1, chk_use_filter = True, combo_field_items = [U ''addr''],
         combo_field_index = 0, combo_op = 3, edit_filter = U ''central'',
         combo_layer_names = [U ''towns''], combo_layer_index = 1,
         lbl_layer_info = Some (U ''L1''), tbl_headers = [U ''FID'', U ''addr''],
         tbl_rows = [[U ''1'', U ''park road'']], list_files = [U ''/data/park.pdf''],
         edit_folder = U ''/data'', edit_ext = U ''pdf, png'',
         last_layer_id = Some (U ''L1'')\<rparr>))
   = ([], [], False, 0, [], [], U ''/data'', U ''pdf, png'', None)"
  (is "_ (tb_clear_all (?h, ?d)) = _")
proof -
  note inst = C10_clear_all [of ?h ?d]
  have "accepts_no_active_layer ?h" by simp
  moreover have "edit_folder ?d = U ''/data''" and "edit_ext ?d = U ''pdf, png''" by simp_all
  ultimately show ?thesis using inst by (simp del: tb_clear_all.simps)
qed

end
